theory Spec2Isabelle
  imports Complex_Main
begin

section \<open>Values, errors and the constant table\<close>

text \<open>
  The transformer of \<^verbatim>\<open>main.py\<close> produces ordinary Python values: a \<^verbatim>\<open>str\<close>, an
  \<^verbatim>\<open>int\<close> (unbounded) or a \<^verbatim>\<open>list\<close> of such values. The operator callbacks
  (\<^verbatim>\<open>op_plus\<close> ... \<^verbatim>\<open>op_mod\<close>) return plain strings too, so an operator that reaches
  \<^verbatim>\<open>expression\<close> is a \<open>PStr\<close> like any string value.
\<close>

datatype pyval = PStr string | PInt int | PList "pyval list"

text \<open>
  One constructor for each place where evaluation can raise; the arguments are the
  values that the source formats into the message.
\<close>

datatype error =
    Invalid_octal_number string
  | Undefined_constant string
  | Not_enough_operands pyval
  | Math_operations_only_integers pyval pyval
  | Expression_error "pyval list"
  | ZeroDivisionError

text \<open>
  \<^verbatim>\<open>self.constants\<close> is a Python \<^verbatim>\<open>dict\<close>. A dict iterates in insertion order; an
  assignment to a key that is present replaces the value where the key stands, and an
  assignment to a new key appends it. The association list keeps that order.
\<close>

type_synonym constants = "(string \<times> pyval) list"

fun dict_set :: "string \<Rightarrow> pyval \<Rightarrow> constants \<Rightarrow> constants" where
  "dict_set k v [] = [(k, v)]"
| "dict_set k v ((k', v') # d) =
     (if k' = k then (k, v) # d else (k', v') # dict_set k v d)"

definition dict_get :: "constants \<Rightarrow> string \<Rightarrow> pyval option" where
  "dict_get d k = map_of d k"

section \<open>The syntax tree of the grammar\<close>

datatype operator = Op_plus | Op_minus | Op_mult | Op_div | Op_mod

text \<open>
  \<open>String\<close> and \<open>Number\<close> carry the raw text of the token that the regular expression
  matched (\<^verbatim>\<open>@"..."\<close> and \<^verbatim>\<open>0o...\<close>).
\<close>

datatype vnode =
    String string
  | Number string
  | Array "vnode list"
  | Name_ref string
  | Expression "etoken list"
and etoken =
    Value vnode
  | Operator operator

datatype statement = Constant_decl string vnode

section \<open>Python's \<^verbatim>\<open>int(text, 8)\<close>\<close>

text \<open>
  The built-in conversion, for code points below 256: white space around the number is
  skipped, a sign may follow, then an optional prefix \<^verbatim>\<open>0o\<close> or \<^verbatim>\<open>0O\<close> (after which
  one underscore is allowed), then octal digits, where single underscores may stand
  between digits. \<open>None\<close> stands for \<^verbatim>\<open>ValueError\<close>.
\<close>

definition py_isspace :: "char \<Rightarrow> bool" where
  "py_isspace c = (c \<in> set [CHR 0x09, CHR 0x0A, CHR 0x0B, CHR 0x0C, CHR 0x0D, CHR 0x20,
                              CHR 0x85, CHR 0xA0])"

definition oct_digit :: "char \<Rightarrow> bool" where
  "oct_digit c = (48 \<le> (of_char c :: nat) \<and> (of_char c :: nat) \<le> 55)"

definition digit_val :: "char \<Rightarrow> int" where
  "digit_val c = int (of_char c) - 48"

fun oct_scan :: "bool \<Rightarrow> int \<Rightarrow> string \<Rightarrow> (int \<times> string) option" where
  "oct_scan us acc [] = (if us then None else Some (acc, []))"
| "oct_scan us acc (c # cs) =
     (if c = CHR ''_'' then (if us then None else oct_scan True acc cs)
      else if oct_digit c then oct_scan False (acc * 8 + digit_val c) cs
      else if us then None else Some (acc, c # cs))"

definition skip_sign :: "string \<Rightarrow> int \<times> string" where
  "skip_sign s =
     (case s of
        [] \<Rightarrow> (1, s)
      | c # r \<Rightarrow> if c = CHR ''+'' then (1, r) else if c = CHR ''-'' then (- 1, r) else (1, s))"

definition skip_prefix :: "string \<Rightarrow> string" where
  "skip_prefix s =
     (case s of
        c0 # c1 # r \<Rightarrow>
          if c0 = CHR ''0'' \<and> (c1 = CHR ''o'' \<or> c1 = CHR ''O'')
          then (case r of [] \<Rightarrow> r | u # r' \<Rightarrow> if u = CHR ''_'' then r' else r)
          else s
      | _ \<Rightarrow> s)"

definition py_int8 :: "string \<Rightarrow> int option" where
  "py_int8 s =
     (let (sign, s2) = skip_sign (dropWhile py_isspace s);
          s3 = skip_prefix s2
      in case s3 of
           [] \<Rightarrow> None
         | c # _ \<Rightarrow>
             if \<not> oct_digit c then None
             else (case oct_scan False 0 s3 of
                     None \<Rightarrow> None
                   | Some (n, rest) \<Rightarrow>
                       if dropWhile py_isspace rest = [] then Some (sign * n) else None))"

section \<open>The transformer callbacks\<close>

text \<open>\<^verbatim>\<open>op_plus\<close> ... \<^verbatim>\<open>op_mod\<close>: each returns the operator's text as a string.\<close>

fun operator_rule :: "operator \<Rightarrow> pyval" where
  "operator_rule Op_plus = PStr ''+''"
| "operator_rule Op_minus = PStr ''-''"
| "operator_rule Op_mult = PStr ''*''"
| "operator_rule Op_div = PStr ''/''"
| "operator_rule Op_mod = PStr ''mod''"

text \<open>\<^verbatim>\<open>string\<close>: the slice \<^verbatim>\<open>items[0][2:-1]\<close> of the token text.\<close>

definition string_rule :: "string \<Rightarrow> pyval" where
  "string_rule tok = PStr (butlast (drop 2 tok))"

text \<open>
  \<^verbatim>\<open>number\<close>: \<^verbatim>\<open>replace('O', 'o')\<close> rewrites every capital O, then \<^verbatim>\<open>int(val, 8)\<close>;
  a \<^verbatim>\<open>ValueError\<close> is raised again with the message of line 64.
\<close>

definition number :: "string \<Rightarrow> error + pyval" where
  "number tok =
     (let val = map (\<lambda>c. if c = CHR ''O'' then CHR ''o'' else c) tok
      in case py_int8 val of
           Some n \<Rightarrow> Inr (PInt n)
         | None \<Rightarrow> Inl (Invalid_octal_number tok))"

definition array :: "pyval list \<Rightarrow> pyval" where
  "array items = PList items"

definition name_ref :: "constants \<Rightarrow> string \<Rightarrow> error + pyval" where
  "name_ref cs name =
     (case dict_get cs name of
        Some v \<Rightarrow> Inr v
      | None \<Rightarrow> Inl (Undefined_constant name))"

text \<open>Python's \<^verbatim>\<open>//\<close> and \<^verbatim>\<open>%\<close> on \<^verbatim>\<open>int\<close>: both raise when the divisor is zero.\<close>

definition py_floordiv :: "int \<Rightarrow> int \<Rightarrow> error + int" where
  "py_floordiv a b = (if b = 0 then Inl ZeroDivisionError else Inr (a div b))"

definition py_mod :: "int \<Rightarrow> int \<Rightarrow> error + int" where
  "py_mod a b = (if b = 0 then Inl ZeroDivisionError else Inr (a mod b))"

definition push_int :: "pyval list \<Rightarrow> error + int \<Rightarrow> error + pyval list" where
  "push_int stack r = (case r of Inl e \<Rightarrow> Inl e | Inr n \<Rightarrow> Inr (stack @ [PInt n]))"

text \<open>The list that line 81 tests membership in (\<^verbatim>\<open>in\<close> compares with \<^verbatim>\<open>==\<close>).\<close>

definition operator_names :: "pyval list" where
  "operator_names = [PStr ''+'', PStr ''-'', PStr ''*'', PStr ''/'', PStr ''mod'']"

text \<open>
  The body of the loop of \<^verbatim>\<open>expression\<close> (lines 81 to 96). The stack is a Python list:
  \<^verbatim>\<open>append\<close> adds at the end and \<^verbatim>\<open>pop\<close> takes from the end.
\<close>

definition expression_step :: "pyval list \<Rightarrow> pyval \<Rightarrow> error + pyval list" where
  "expression_step stack token =
     (if token \<in> set operator_names then
        if length stack < 2 then Inl (Not_enough_operands token)
        else
          let b = last stack; stack1 = butlast stack;
              a = last stack1; stack2 = butlast stack1
          in (case (a, b) of
                (PInt x, PInt y) \<Rightarrow>
                  if token = PStr ''+'' then Inr (stack2 @ [PInt (x + y)])
                  else if token = PStr ''-'' then Inr (stack2 @ [PInt (x - y)])
                  else if token = PStr ''*'' then Inr (stack2 @ [PInt (x * y)])
                  else if token = PStr ''/'' then push_int stack2 (py_floordiv x y)
                  else if token = PStr ''mod'' then push_int stack2 (py_mod x y)
                  else Inr stack2
              | _ \<Rightarrow> Inl (Math_operations_only_integers a b))
      else Inr (stack @ [token]))"

fun expression_loop :: "pyval list \<Rightarrow> pyval list \<Rightarrow> error + pyval list" where
  "expression_loop stack [] = Inr stack"
| "expression_loop stack (token # tokens) =
     (case expression_step stack token of
        Inl e \<Rightarrow> Inl e
      | Inr stack' \<Rightarrow> expression_loop stack' tokens)"

definition expression :: "pyval list \<Rightarrow> error + pyval" where
  "expression tokens =
     (case expression_loop [] tokens of
        Inl e \<Rightarrow> Inl e
      | Inr stack \<Rightarrow>
          if length stack \<noteq> 1 then Inl (Expression_error stack)
          else Inr (stack ! 0))"

text \<open>
  \<^verbatim>\<open>expr_body\<close> hands its children on as a list; \<^verbatim>\<open>expression\<close> receives that list as
  \<^verbatim>\<open>items[0]\<close>.
\<close>

definition expr_body :: "pyval list \<Rightarrow> pyval list" where
  "expr_body items = items"

section \<open>Running the callbacks over the tree\<close>

text \<open>
  The LALR parser calls a callback when it reduces a rule, so the children of a node are
  transformed first, from left to right, and the first exception ends the parse.
\<close>

fun sequence :: "(error + 'a) list \<Rightarrow> error + 'a list" where
  "sequence [] = Inr []"
| "sequence (r # rs) =
     (case r of
        Inl e \<Rightarrow> Inl e
      | Inr x \<Rightarrow> (case sequence rs of Inl e \<Rightarrow> Inl e | Inr xs \<Rightarrow> Inr (x # xs)))"

fun value_rule :: "constants \<Rightarrow> vnode \<Rightarrow> error + pyval"
and expr_token :: "constants \<Rightarrow> etoken \<Rightarrow> error + pyval" where
  "value_rule cs (String tok) = Inr (string_rule tok)"
| "value_rule cs (Number tok) = number tok"
| "value_rule cs (Array vs) =
     (case sequence (map (value_rule cs) vs) of
        Inl e \<Rightarrow> Inl e
      | Inr items \<Rightarrow> Inr (array items))"
| "value_rule cs (Name_ref name) = name_ref cs name"
| "value_rule cs (Expression ts) =
     (case sequence (map (expr_token cs) ts) of
        Inl e \<Rightarrow> Inl e
      | Inr items \<Rightarrow> expression (expr_body items))"
| "expr_token cs (Value v) = value_rule cs v"
| "expr_token cs (Operator p) = Inr (operator_rule p)"

text \<open>\<^verbatim>\<open>constant_decl\<close>: line 41 writes the resolved value into the table.\<close>

definition constant_decl :: "constants \<Rightarrow> string \<Rightarrow> pyval \<Rightarrow> constants" where
  "constant_decl cs name v = dict_set name v cs"

fun statements :: "constants \<Rightarrow> statement list \<Rightarrow> error + constants" where
  "statements cs [] = Inr cs"
| "statements cs (Constant_decl name v # rest) =
     (case value_rule cs v of
        Inl e \<Rightarrow> Inl e
      | Inr x \<Rightarrow> statements (constant_decl cs name x) rest)"

text \<open>\<^verbatim>\<open>__init__\<close> starts from the empty dict and \<^verbatim>\<open>start\<close> returns the table.\<close>

definition start :: "statement list \<Rightarrow> error + constants" where
  "start doc = statements [] doc"

section \<open>The lexer's rules for numbers and strings\<close>

text \<open>The regular expression \<^verbatim>\<open>0[oO][0-7]+\<close> of the grammar, on the whole token text.\<close>

fun number_token :: "string \<Rightarrow> bool" where
  "number_token (z # p # d # ds) =
     (z = CHR ''0'' \<and> (p = CHR ''o'' \<or> p = CHR ''O'') \<and> list_all oct_digit (d # ds))"
| "number_token _ = False"

text \<open>The text of a string token (\<^verbatim>\<open>@"..."\<close>) whose content is \<open>s\<close>.\<close>

definition string_token :: "string \<Rightarrow> string" where
  "string_token s = CHR ''@'' # CHR 0x22 # s @ [CHR 0x22]"

section \<open>Notions used to state the properties\<close>

text \<open>\<^verbatim>\<open>isinstance(v, int)\<close> on the values that the transformer produces.\<close>

fun isinstance_int :: "pyval \<Rightarrow> bool" where
  "isinstance_int (PInt n) = True"
| "isinstance_int _ = False"

fun decl_name :: "statement \<Rightarrow> string" where
  "decl_name (Constant_decl name v) = name"

text \<open>
  The standard base-8 reading of a digit string: every digit counts with the power of
  eight of its position.
\<close>

fun base8 :: "string \<Rightarrow> int" where
  "base8 [] = 0"
| "base8 (c # cs) = digit_val c * 8 ^ length cs + base8 cs"

text \<open>
  Two orders on the declared names of a document: each name at the place of its last
  declaration, and each name at the place of its first declaration.
\<close>

fun last_write_order :: "string list \<Rightarrow> string list" where
  "last_write_order [] = []"
| "last_write_order (n # ns) =
     (if n \<in> set ns then last_write_order ns else n # last_write_order ns)"

fun first_write_order :: "string list \<Rightarrow> string list" where
  "first_write_order [] = []"
| "first_write_order (n # ns) = n # filter (\<lambda>m. m \<noteq> n) (first_write_order ns)"

section \<open>Octal literals\<close>

lemma oct_digit_not_underscore: "oct_digit c \<Longrightarrow> c \<noteq> CHR ''_''"
  by (auto simp: oct_digit_def)

lemma oct_digit_not_O: "oct_digit c \<Longrightarrow> c \<noteq> CHR ''O''"
  by (auto simp: oct_digit_def)

lemma oct_scan_digits:
  "list_all oct_digit ds \<Longrightarrow> oct_scan False acc ds = Some (acc * 8 ^ length ds + base8 ds, [])"
proof (induction ds arbitrary: acc)
  case Nil
  then show ?case by simp
next
  case (Cons d ds)
  then have d: "oct_digit d" and ds: "list_all oct_digit ds" by simp_all
  from d have "d \<noteq> CHR ''_''" by (rule oct_digit_not_underscore)
  with d Cons.IH [OF ds] show ?case by (simp add: algebra_simps)
qed

lemma replace_O_digits:
  "list_all oct_digit ds \<Longrightarrow> map (\<lambda>c. if c = CHR ''O'' then CHR ''o'' else c) ds = ds"
  by (induction ds) (auto dest: oct_digit_not_O)

lemma py_int8_prefixed:
  assumes "list_all oct_digit (d # ds)"
  shows "py_int8 (CHR ''0'' # CHR ''o'' # d # ds) = Some (base8 (d # ds))"
proof -
  from assms have d: "oct_digit d" by simp
  then have nu: "d \<noteq> CHR ''_''" by (rule oct_digit_not_underscore)
  have sp: "\<not> py_isspace CHR ''0''" by (simp add: py_isspace_def)
  have sg: "skip_sign (CHR ''0'' # CHR ''o'' # d # ds) = (1, CHR ''0'' # CHR ''o'' # d # ds)"
    by (simp add: skip_sign_def)
  have pf: "skip_prefix (CHR ''0'' # CHR ''o'' # d # ds) = d # ds"
    using nu by (simp add: skip_prefix_def)
  have sc: "oct_scan False 0 (d # ds) = Some (base8 (d # ds), [])"
    using oct_scan_digits [OF assms, of 0] by simp
  show ?thesis
    unfolding py_int8_def using sp d by (simp add: sg pf sc del: oct_scan.simps base8.simps)
qed

lemma py_int8_of_token:
  assumes "number_token tok"
  shows "py_int8 (map (\<lambda>c. if c = CHR ''O'' then CHR ''o'' else c) tok) = Some (base8 (drop 2 tok))"
proof -
  from assms obtain z p d ds where tok: "tok = z # p # d # ds"
    by (cases tok rule: number_token.cases) auto
  with assms have z: "z = CHR ''0''" and p: "p = CHR ''o'' \<or> p = CHR ''O''"
    and ds: "list_all oct_digit (d # ds)" by simp_all
  have "map (\<lambda>c. if c = CHR ''O'' then CHR ''o'' else c) tok = CHR ''0'' # CHR ''o'' # d # ds"
    using z p replace_O_digits [OF ds] by (auto simp: tok)
  then show ?thesis
    using py_int8_prefixed [OF ds] by (simp add: tok)
qed

lemma number_of_token:
  "number_token tok \<Longrightarrow> number tok = Inr (PInt (base8 (drop 2 tok)))"
  by (simp add: number_def py_int8_of_token)

lemma number_small:
  "number ''0o0'' = Inr (PInt 0)" "number ''0o1'' = Inr (PInt 1)" "number ''0o2'' = Inr (PInt 2)"
  "number ''0o3'' = Inr (PInt 3)" "number ''0o7'' = Inr (PInt 7)" "number ''0o10'' = Inr (PInt 8)"
  by (simp_all add: number_of_token oct_digit_def digit_val_def)

lemma string_rule_token: "string_rule (string_token s) = PStr s"
  by (simp add: string_rule_def string_token_def)

section \<open>The stack machine\<close>

lemma expression_loop_append:
  "expression_loop stack (xs @ ys) =
     (case expression_loop stack xs of Inl e \<Rightarrow> Inl e | Inr stack' \<Rightarrow> expression_loop stack' ys)"
  by (induction xs arbitrary: stack) (auto split: sum.splits)

lemma expression_loop_fails:
  assumes "expression_loop stack pre = Inr stack'" and "expression_step stack' token = Inl e"
  shows "expression_loop stack (pre @ token # post) = Inl e"
  using assms by (simp add: expression_loop_append)

lemma expression_fails:
  assumes "expression_loop [] pre = Inr stack" and "expression_step stack token = Inl e"
  shows "expression (pre @ token # post) = Inl e"
  using expression_loop_fails [OF assms] by (simp add: expression_def)

lemma operands_of_stack:
  "last (stack @ [a, b]) = b" "butlast (stack @ [a, b]) = stack @ [a]"
  "last (stack @ [a]) = a" "butlast (stack @ [a]) = stack"
  by (simp_all add: butlast_append)

lemma step_push:
  "token \<notin> set operator_names \<Longrightarrow> expression_step stack token = Inr (stack @ [token])"
  by (simp add: expression_step_def)

lemma PInt_not_operator: "PInt n \<notin> set operator_names"
  by (simp add: operator_names_def)

lemma step_plus:
  "expression_step (stack @ [PInt a, PInt b]) (PStr ''+'') = Inr (stack @ [PInt (a + b)])"
  by (simp add: expression_step_def operator_names_def operands_of_stack)

lemma step_minus:
  "expression_step (stack @ [PInt a, PInt b]) (PStr ''-'') = Inr (stack @ [PInt (a - b)])"
  by (simp add: expression_step_def operator_names_def operands_of_stack)

lemma step_mult:
  "expression_step (stack @ [PInt a, PInt b]) (PStr ''*'') = Inr (stack @ [PInt (a * b)])"
  by (simp add: expression_step_def operator_names_def operands_of_stack)

lemma step_div:
  "expression_step (stack @ [PInt a, PInt b]) (PStr ''/'') = push_int stack (py_floordiv a b)"
  by (simp add: expression_step_def operator_names_def operands_of_stack)

lemma step_mod:
  "expression_step (stack @ [PInt a, PInt b]) (PStr ''mod'') = push_int stack (py_mod a b)"
  by (simp add: expression_step_def operator_names_def operands_of_stack)

lemma step_not_enough:
  "token \<in> set operator_names \<Longrightarrow> length stack < 2 \<Longrightarrow>
   expression_step stack token = Inl (Not_enough_operands token)"
  by (simp add: expression_step_def)

lemma step_not_integers:
  assumes "token \<in> set operator_names" and "2 \<le> length stack"
    and "\<not> isinstance_int (last (butlast stack)) \<or> \<not> isinstance_int (last stack)"
  shows "expression_step stack token =
         Inl (Math_operations_only_integers (last (butlast stack)) (last stack))"
proof -
  from assms(2) have len: "\<not> length stack < 2" by simp
  show ?thesis
    using assms(1,3) len
    by (cases "last (butlast stack)"; cases "last stack") (simp_all add: expression_step_def Let_def)
qed

lemma push_two:
  "expression_loop stack [PInt a, PInt b] = Inr (stack @ [PInt a, PInt b])"
  by (simp add: step_push PInt_not_operator)

lemma floor_mod_sign:
  fixes a b :: int
  assumes "b \<noteq> 0"
  shows "(a mod b = 0 \<or> sgn (a mod b) = sgn b) \<and> \<bar>a mod b\<bar> < \<bar>b\<bar>"
proof (cases "0 < b")
  case True
  then have "0 \<le> a mod b" "a mod b < b" by simp_all
  with True show ?thesis by (auto simp: sgn_if)
next
  case False
  with assms have neg: "b < 0" by simp
  then have "a mod b \<le> 0" "b < a mod b" by simp_all
  with neg show ?thesis by (auto simp: sgn_if)
qed

section \<open>Documents and the constant table\<close>

lemma sequence_error:
  "sequence (map f xs) = Inr ys \<Longrightarrow> f x = Inl e \<Longrightarrow> sequence (map f (xs @ x # rest)) = Inl e"
  by (induction xs arbitrary: ys) (auto split: sum.splits)

lemma statements_append:
  "statements cs (xs @ ys) =
     (case statements cs xs of Inl e \<Rightarrow> Inl e | Inr cs' \<Rightarrow> statements cs' ys)"
proof (induction xs arbitrary: cs)
  case Nil
  show ?case by simp
next
  case (Cons s xs)
  obtain name v where s: "s = Constant_decl name v" by (cases s)
  show ?case by (simp add: s Cons.IH split: sum.splits)
qed

lemma statements_error:
  assumes "statements cs0 d1 = Inr cs" and "value_rule cs v = Inl e"
  shows "statements cs0 (d1 @ Constant_decl name v # d2) = Inl e"
  using assms by (simp add: statements_append)

lemma statements_snoc:
  assumes "statements cs0 doc = Inr cs"
  shows "statements cs0 (doc @ [Constant_decl name v]) =
         (case value_rule cs v of Inl e \<Rightarrow> Inl e | Inr x \<Rightarrow> Inr (dict_set name x cs))"
  using assms by (simp add: statements_append constant_decl_def split: sum.splits)

lemma dict_get_set: "dict_get (dict_set k v d) k' = (if k' = k then Some v else dict_get d k')"
  by (induction d) (auto simp: dict_get_def)

lemma keys_dict_set:
  "map fst (dict_set k v d) = (if k \<in> set (map fst d) then map fst d else map fst d @ [k])"
proof (induction d)
  case Nil
  show ?case by simp
next
  case (Cons p d)
  obtain k' v' where p: "p = (k', v')" by (cases p)
  show ?case
  proof (cases "k' = k")
    case True
    then show ?thesis by (simp add: p)
  next
    case False
    with Cons.IH show ?thesis by (simp add: p)
  qed
qed

lemma distinct_dict_set: "distinct (map fst d) \<Longrightarrow> distinct (map fst (dict_set k v d))"
  by (simp add: keys_dict_set)

lemma statements_distinct:
  "statements cs doc = Inr cs' \<Longrightarrow> distinct (map fst cs) \<Longrightarrow> distinct (map fst cs')"
proof (induction doc arbitrary: cs)
  case Nil
  then show ?case by simp
next
  case (Cons s doc)
  obtain name v where s: "s = Constant_decl name v" by (cases s)
  from Cons.prems(1) obtain x where x: "value_rule cs v = Inr x"
    and rest: "statements (constant_decl cs name x) doc = Inr cs'"
    by (auto simp: s split: sum.splits)
  have "distinct (map fst (constant_decl cs name x))"
    using Cons.prems(2) by (simp add: constant_decl_def distinct_dict_set)
  with Cons.IH rest show ?case by blast
qed

lemma statements_keep:
  "statements cs doc = Inr cs' \<Longrightarrow> n \<notin> set (map decl_name doc) \<Longrightarrow> dict_get cs' n = dict_get cs n"
proof (induction doc arbitrary: cs)
  case Nil
  then show ?case by simp
next
  case (Cons s doc)
  obtain name v where s: "s = Constant_decl name v" by (cases s)
  from Cons.prems(1) obtain x where x: "value_rule cs v = Inr x"
    and rest: "statements (constant_decl cs name x) doc = Inr cs'"
    by (auto simp: s split: sum.splits)
  from Cons.prems(2) have ne: "n \<noteq> name" and nin: "n \<notin> set (map decl_name doc)"
    by (simp_all add: s)
  have "dict_get cs' n = dict_get (constant_decl cs name x) n"
    using Cons.IH [OF rest nin] .
  also have "\<dots> = dict_get cs n"
    using ne by (simp add: constant_decl_def dict_get_set)
  finally show ?case .
qed

lemma latest_declaration:
  assumes "statements cs0 (d1 @ Constant_decl name v # d2) = Inr cs"
    and "name \<notin> set (map decl_name d2)"
  shows "\<exists>c1 x. statements cs0 d1 = Inr c1 \<and> value_rule c1 v = Inr x \<and> dict_get cs name = Some x"
proof -
  from assms(1) obtain c1 where c1: "statements cs0 d1 = Inr c1"
    and r: "statements c1 (Constant_decl name v # d2) = Inr cs"
    by (auto simp: statements_append split: sum.splits)
  from r obtain x where x: "value_rule c1 v = Inr x"
    and rest: "statements (constant_decl c1 name x) d2 = Inr cs"
    by (auto split: sum.splits)
  have "dict_get cs name = dict_get (constant_decl c1 name x) name"
    using statements_keep [OF rest assms(2)] .
  then have "dict_get cs name = Some x"
    by (simp add: constant_decl_def dict_get_set)
  with c1 x show ?thesis by blast
qed

lemma single_entry:
  "distinct (map fst d) \<Longrightarrow> dict_get d k = Some x \<Longrightarrow> filter (\<lambda>p. fst p = k) d = [(k, x)]"
proof (induction d)
  case Nil
  then show ?case by (simp add: dict_get_def)
next
  case (Cons p d)
  obtain k' v' where p: "p = (k', v')" by (cases p)
  show ?case
  proof (cases "k' = k")
    case True
    with Cons.prems p have "x = v'" and "k \<notin> fst ` set d" by (auto simp: dict_get_def)
    then have "filter (\<lambda>p. fst p = k) d = []" by (auto simp: filter_empty_conv)
    with True p \<open>x = v'\<close> show ?thesis by simp
  next
    case False
    with Cons p show ?thesis by (simp add: dict_get_def)
  qed
qed

lemma statements_keys:
  "statements cs doc = Inr cs' \<Longrightarrow>
   map fst cs' = map fst cs @
     filter (\<lambda>n. n \<notin> set (map fst cs)) (first_write_order (map decl_name doc))"
proof (induction doc arbitrary: cs)
  case Nil
  then show ?case by simp
next
  case (Cons s doc)
  obtain name v where s: "s = Constant_decl name v" by (cases s)
  from Cons.prems obtain x where x: "value_rule cs v = Inr x"
    and rest: "statements (constant_decl cs name x) doc = Inr cs'"
    by (auto simp: s split: sum.splits)
  let ?ns = "first_write_order (map decl_name doc)"
  have ih: "map fst cs' = map fst (dict_set name x cs) @
      filter (\<lambda>n. n \<notin> set (map fst (dict_set name x cs))) ?ns"
    using Cons.IH [OF rest] by (simp add: constant_decl_def)
  show ?case
  proof (cases "name \<in> set (map fst cs)")
    case True
    then have "filter (\<lambda>n. n \<notin> set (map fst cs)) (filter (\<lambda>m. m \<noteq> name) ?ns)
             = filter (\<lambda>n. n \<notin> set (map fst cs)) ?ns"
      by (auto intro: filter_cong)
    with True ih show ?thesis by (simp add: s keys_dict_set)
  next
    case False
    have "filter (\<lambda>n. n \<notin> set (map fst cs) \<and> n \<noteq> name) ?ns
        = filter (\<lambda>n. n \<notin> set (map fst cs)) (filter (\<lambda>m. m \<noteq> name) ?ns)"
      by (auto intro: filter_cong)
    with False ih show ?thesis by (simp add: s keys_dict_set)
  qed
qed

lemma start_undeclared:
  assumes "start doc = Inr cs" and "n \<notin> set (map decl_name doc)"
  shows "dict_get cs n = None"
  using statements_keep [of "[]" doc cs n] assms by (simp add: start_def dict_get_def)

lemmas run_simps = start_def constant_decl_def name_ref_def dict_get_def number_small expr_body_def

section \<open>The properties\<close>

text \<open>
  Claim C1. In expression evaluation \<^verbatim>\<open>/\<close> and \<^verbatim>\<open>mod\<close> have floor semantics. For
  integer operands \<open>a\<close> and \<open>b\<close> with \<open>b\<close> not zero, \<^verbatim>\<open>/\<close> replaces the two operands by
  the floor of the real quotient \<open>a / b\<close>, and \<^verbatim>\<open>mod\<close> replaces them by
  \<open>a - b * floor (a / b)\<close>, a value that is zero or has the sign of the divisor \<open>b\<close> and
  is smaller than \<open>b\<close> in absolute value. The expression \<^verbatim>\<open>^{ 0o0 0o3 - 0o2 / }\<close>
  evaluates to \<open>-2\<close> and \<^verbatim>\<open>^{ 0o7 0o2 / }\<close> to \<open>3\<close>.
\<close>

theorem floor_division_and_modulo:
  assumes "b \<noteq> 0"
  shows "expression_step (stack @ [PInt a, PInt b]) (PStr ''/'')
           = Inr (stack @ [PInt \<lfloor>real_of_int a / real_of_int b\<rfloor>])
       \<and> expression_step (stack @ [PInt a, PInt b]) (PStr ''mod'')
           = Inr (stack @ [PInt (a - b * \<lfloor>real_of_int a / real_of_int b\<rfloor>)])
       \<and> (a - b * \<lfloor>real_of_int a / real_of_int b\<rfloor> = 0
            \<or> sgn (a - b * \<lfloor>real_of_int a / real_of_int b\<rfloor>) = sgn b)
       \<and> \<bar>a - b * \<lfloor>real_of_int a / real_of_int b\<rfloor>\<bar> < \<bar>b\<bar>
       \<and> value_rule cs (Expression [Value (Number ''0o0''), Value (Number ''0o3''),
             Operator Op_minus, Value (Number ''0o2''), Operator Op_div]) = Inr (PInt (- 2))
       \<and> value_rule cs (Expression [Value (Number ''0o7''), Value (Number ''0o2''),
             Operator Op_div]) = Inr (PInt 3)"
proof -
  have fl: "\<lfloor>real_of_int a / real_of_int b\<rfloor> = a div b"
    by (rule floor_divide_of_int_eq)
  have md: "a - b * (a div b) = a mod b"
    by (simp add: minus_mult_div_eq_mod)
  have d: "expression_step (stack @ [PInt a, PInt b]) (PStr ''/'') = Inr (stack @ [PInt (a div b)])"
    using assms by (simp add: step_div py_floordiv_def push_int_def)
  have m: "expression_step (stack @ [PInt a, PInt b]) (PStr ''mod'') = Inr (stack @ [PInt (a mod b)])"
    using assms by (simp add: step_mod py_mod_def push_int_def)
  have s1: "expression_step [PInt 0, PInt 3] (PStr ''-'') = Inr [PInt (- 3)]"
    using step_minus [of "[]" 0 3] by simp
  have s2: "expression_step [PInt (- 3), PInt 2] (PStr ''/'') = Inr [PInt (- 2)]"
    using step_div [of "[]" "- 3" 2] by (simp add: py_floordiv_def push_int_def)
  have s3: "expression_step [PInt 7, PInt 2] (PStr ''/'') = Inr [PInt 3]"
    using step_div [of "[]" 7 2] by (simp add: py_floordiv_def push_int_def)
  have e1: "expression [PInt 0, PInt 3, PStr ''-'', PInt 2, PStr ''/''] = Inr (PInt (- 2))"
    by (simp add: expression_def step_push PInt_not_operator s1 s2)
  have e2: "expression [PInt 7, PInt 2, PStr ''/''] = Inr (PInt 3)"
    by (simp add: expression_def step_push PInt_not_operator s3)
  show ?thesis
    using floor_mod_sign [OF assms, of a]
    by (simp add: fl md d m number_small expr_body_def e1 e2)
qed

theorem floor_division_and_modulo_witness:
  "(2::int) \<noteq> 0
   \<and> expression_step [PInt (- 3), PInt 2] (PStr ''/'') = Inr [PInt (- 2)]
   \<and> expression_step [PInt (- 3), PInt 2] (PStr ''mod'') = Inr [PInt 1]
   \<and> expression_step [PInt 7, PInt (- 2)] (PStr ''/'') = Inr [PInt (- 4)]
   \<and> expression_step [PInt 7, PInt (- 2)] (PStr ''mod'') = Inr [PInt (- 1)]"
proof -
  have f1: "\<lfloor>real_of_int (- 3) / real_of_int 2\<rfloor> = - 2" by (simp add: floor_divide_of_int_eq [of "- 3" 2, simplified])
  have f2: "\<lfloor>real_of_int 7 / real_of_int (- 2)\<rfloor> = - 4" by (simp add: floor_divide_of_int_eq [of 7 "- 2", simplified])
  show ?thesis
    using floor_division_and_modulo [of 2 "[]" "- 3" "[]"] floor_division_and_modulo [of "- 2" "[]" 7 "[]"]
    by (simp add: f1 f2)
qed

text \<open>
  Claim C2. Two integer tokens \<open>a\<close>, \<open>b\<close> are pushed in this order on top of the stack.
  An operator token then takes exactly these two values off the stack, \<open>b\<close> from the
  top and \<open>a\<close> below it, leaves the rest of the stack as it is and pushes the operator
  applied to \<open>(a, b)\<close>: \<open>a + b\<close>, \<open>a - b\<close>, \<open>a * b\<close>, and for \<^verbatim>\<open>/\<close> and \<^verbatim>\<open>mod\<close> the
  quotient \<open>a div b\<close> and the remainder \<open>a mod b\<close> when \<open>b\<close> is not zero; when \<open>b\<close> is
  zero, both fail with \<^verbatim>\<open>ZeroDivisionError\<close> and push nothing. The expression
  \<^verbatim>\<open>^{ 0o10 0o3 - }\<close> evaluates to \<open>5\<close> and \<^verbatim>\<open>^{ 0o10 0o3 mod }\<close> to \<open>2\<close>.
\<close>

theorem operator_pops_b_then_a:
  "expression_loop stack [PInt a, PInt b] = Inr (stack @ [PInt a, PInt b])
   \<and> expression_step (stack @ [PInt a, PInt b]) (operator_rule Op_plus) = Inr (stack @ [PInt (a + b)])
   \<and> expression_step (stack @ [PInt a, PInt b]) (operator_rule Op_minus) = Inr (stack @ [PInt (a - b)])
   \<and> expression_step (stack @ [PInt a, PInt b]) (operator_rule Op_mult) = Inr (stack @ [PInt (a * b)])
   \<and> expression_step (stack @ [PInt a, PInt b]) (operator_rule Op_div)
        = (if b = 0 then Inl ZeroDivisionError else Inr (stack @ [PInt (a div b)]))
   \<and> expression_step (stack @ [PInt a, PInt b]) (operator_rule Op_mod)
        = (if b = 0 then Inl ZeroDivisionError else Inr (stack @ [PInt (a mod b)]))
   \<and> value_rule cs (Expression [Value (Number ''0o10''), Value (Number ''0o3''), Operator Op_minus])
        = Inr (PInt 5)
   \<and> value_rule cs (Expression [Value (Number ''0o10''), Value (Number ''0o3''), Operator Op_mod])
        = Inr (PInt 2)"
proof -
  have s1: "expression_step [PInt 8, PInt 3] (PStr ''-'') = Inr [PInt 5]"
    using step_minus [of "[]" 8 3] by simp
  have s2: "expression_step [PInt 8, PInt 3] (PStr ''mod'') = Inr [PInt 2]"
    using step_mod [of "[]" 8 3] by (simp add: py_mod_def push_int_def)
  have e1: "expression [PInt 8, PInt 3, PStr ''-''] = Inr (PInt 5)"
    by (simp add: expression_def step_push PInt_not_operator s1)
  have e2: "expression [PInt 8, PInt 3, PStr ''mod''] = Inr (PInt 2)"
    by (simp add: expression_def step_push PInt_not_operator s2)
  show ?thesis
    by (simp add: push_two step_plus step_minus step_mult step_div step_mod py_floordiv_def
        py_mod_def push_int_def number_small expr_body_def e1 e2 del: expression_loop.simps)
qed

theorem operator_pops_b_then_a_witness:
  "expression_step [PStr ''x'', PInt 7, PInt 2] (PStr ''-'') = Inr [PStr ''x'', PInt 5]
   \<and> expression_step [PStr ''x'', PInt 2, PInt 7] (PStr ''-'') = Inr [PStr ''x'', PInt (- 5)]
   \<and> expression_step [PStr ''x'', PInt 7, PInt 2] (PStr ''/'') = Inr [PStr ''x'', PInt 3]
   \<and> expression_step [PStr ''x'', PInt 2, PInt 7] (PStr ''/'') = Inr [PStr ''x'', PInt 0]
   \<and> expression_step [PStr ''x'', PInt 7, PInt 2] (PStr ''mod'') = Inr [PStr ''x'', PInt 1]
   \<and> expression_step [PStr ''x'', PInt 2, PInt 7] (PStr ''mod'') = Inr [PStr ''x'', PInt 2]
   \<and> expression_step [PStr ''x'', PInt 7, PInt 0] (PStr ''/'') = Inl ZeroDivisionError
   \<and> expression_step [PStr ''x'', PInt 7, PInt 0] (PStr ''mod'') = Inl ZeroDivisionError"
  using operator_pops_b_then_a [of "[PStr ''x'']" 7 2 "[]"]
    operator_pops_b_then_a [of "[PStr ''x'']" 2 7 "[]"]
    operator_pops_b_then_a [of "[PStr ''x'']" 7 0 "[]"]
  by simp

text \<open>
  Claim C3. Let \<open>cs\<close> be the table after the statements of \<open>doc\<close>. A further statement
  resolves its value against \<open>cs\<close> and only then writes its entry into \<open>cs\<close>. A
  reference to a name that \<open>cs\<close> holds yields the value stored there, which is the
  resolved value of the latest declaration of that name in \<open>doc\<close>. A reference to a
  name that \<open>cs\<close> does not hold fails with the undefined-constant error, and so does the
  self-reference \<^verbatim>\<open>set A = ^{ A 0o1 + }\<close> when \<open>A\<close> is not declared in \<open>doc\<close>.
\<close>

theorem value_resolved_before_table_write:
  assumes "start doc = Inr cs"
  shows "start (doc @ [Constant_decl name v])
           = (case value_rule cs v of Inl e \<Rightarrow> Inl e | Inr x \<Rightarrow> Inr (dict_set name x cs))
       \<and> (dict_get cs n = Some x
            \<longrightarrow> start (doc @ [Constant_decl m (Name_ref n)]) = Inr (dict_set m x cs))
       \<and> (doc = d1 @ Constant_decl n' w # d2 \<and> n' \<notin> set (map decl_name d2)
            \<longrightarrow> (\<exists>c1 y. start d1 = Inr c1 \<and> value_rule c1 w = Inr y
                        \<and> value_rule cs (Name_ref n') = Inr y))
       \<and> (dict_get cs u = None
            \<longrightarrow> value_rule cs (Name_ref u) = Inl (Undefined_constant u)
              \<and> start (doc @ [Constant_decl m' (Name_ref u)]) = Inl (Undefined_constant u))
       \<and> (A \<notin> set (map decl_name doc)
            \<longrightarrow> start (doc @ [Constant_decl A (Expression
                   [Value (Name_ref A), Value (Number ''0o1''), Operator Op_plus])])
                = Inl (Undefined_constant A))"
proof -
  have snoc: "start (doc @ [Constant_decl k t])
           = (case value_rule cs t of Inl e \<Rightarrow> Inl e | Inr x \<Rightarrow> Inr (dict_set k x cs))" for k t
    using assms statements_snoc [of "[]" doc cs k t] by (simp add: start_def)
  have p2: "start (doc @ [Constant_decl m (Name_ref n)]) = Inr (dict_set m x cs)"
    if "dict_get cs n = Some x"
    using that by (simp add: snoc name_ref_def)
  have p3: "\<exists>c1 y. start d1 = Inr c1 \<and> value_rule c1 w = Inr y \<and> value_rule cs (Name_ref n') = Inr y"
    if "doc = d1 @ Constant_decl n' w # d2" "n' \<notin> set (map decl_name d2)"
  proof -
    from assms that(1) have "statements [] (d1 @ Constant_decl n' w # d2) = Inr cs"
      by (simp add: start_def)
    from latest_declaration [OF this that(2)] show ?thesis
      by (auto simp: start_def name_ref_def)
  qed
  have p4: "value_rule cs (Name_ref u) = Inl (Undefined_constant u)
            \<and> start (doc @ [Constant_decl m' (Name_ref u)]) = Inl (Undefined_constant u)"
    if "dict_get cs u = None"
    using that by (simp add: snoc name_ref_def)
  have p5: "start (doc @ [Constant_decl A (Expression
                   [Value (Name_ref A), Value (Number ''0o1''), Operator Op_plus])])
                = Inl (Undefined_constant A)"
    if "A \<notin> set (map decl_name doc)"
  proof -
    from start_undeclared [OF assms that] show ?thesis
      by (simp add: snoc name_ref_def)
  qed
  from snoc [of name v] p2 p3 p4 p5 show ?thesis by blast
qed

theorem value_resolved_before_table_write_witness:
  "start [Constant_decl ''A'' (Number ''0o1''), Constant_decl ''A'' (Number ''0o2'')]
     = Inr [(''A'', PInt 2)]
   \<and> start [Constant_decl ''A'' (Number ''0o1''), Constant_decl ''A'' (Number ''0o2''),
            Constant_decl ''B'' (Name_ref ''A'')]
     = Inr [(''A'', PInt 2), (''B'', PInt 2)]
   \<and> value_rule [(''A'', PInt 2)] (Name_ref ''A'') = Inr (PInt 2)
   \<and> start [Constant_decl ''A'' (Number ''0o1''), Constant_decl ''A'' (Number ''0o2''),
            Constant_decl ''C'' (Name_ref ''C'')]
     = Inl (Undefined_constant ''C'')
   \<and> start [Constant_decl ''A'' (Number ''0o1''), Constant_decl ''A'' (Number ''0o2''),
            Constant_decl ''Z'' (Expression
              [Value (Name_ref ''Z''), Value (Number ''0o1''), Operator Op_plus])]
     = Inl (Undefined_constant ''Z'')"
proof -
  let ?doc = "[Constant_decl ''A'' (Number ''0o1''), Constant_decl ''A'' (Number ''0o2'')]"
  have h: "start ?doc = Inr [(''A'', PInt 2)]"
    by (simp add: run_simps)
  have s1: "start [Constant_decl ''A'' (Number ''0o1'')] = Inr [(''A'', PInt 1)]"
    by (simp add: run_simps)
  show ?thesis
    using h value_resolved_before_table_write [OF h,
        of "''B''" "Name_ref ''A''" "''A''" "PInt 2" "''B''"
           "[Constant_decl ''A'' (Number ''0o1'')]" "''A''" "Number ''0o2''" "[]"
           "''C''" "''C''" "''Z''"]
    by (simp add: s1 dict_get_def number_small)
qed

text \<open>
  Claim C4. When a document compiles to the table \<open>cs\<close> and the statement
  \<^verbatim>\<open>set name = v\<close> is the last declaration of \<open>name\<close> in it, then \<open>cs\<close> holds exactly one
  entry for \<open>name\<close>, and its value is the value that \<open>v\<close> resolved to at that statement,
  however many earlier declarations of \<open>name\<close> there are.
\<close>

theorem redeclared_name_latest_value:
  assumes "start (d1 @ Constant_decl name v # d2) = Inr cs"
    and "name \<notin> set (map decl_name d2)"
  shows "\<exists>c1 x. start d1 = Inr c1 \<and> value_rule c1 v = Inr x
               \<and> filter (\<lambda>p. fst p = name) cs = [(name, x)]"
proof -
  from assms(1) have run: "statements [] (d1 @ Constant_decl name v # d2) = Inr cs"
    by (simp add: start_def)
  from latest_declaration [OF run assms(2)] obtain c1 x
    where c1: "statements [] d1 = Inr c1" and x: "value_rule c1 v = Inr x"
      and g: "dict_get cs name = Some x" by blast
  have "distinct (map fst cs)"
    using statements_distinct [OF run] by simp
  from single_entry [OF this g] c1 x show ?thesis
    by (auto simp: start_def)
qed

theorem redeclared_name_latest_value_witness:
  "start ([Constant_decl ''A'' (Number ''0o1''), Constant_decl ''B'' (Name_ref ''A'')]
          @ Constant_decl ''A'' (Number ''0o2'') # [Constant_decl ''C'' (Name_ref ''A'')])
     = Inr [(''A'', PInt 2), (''B'', PInt 1), (''C'', PInt 2)]
   \<and> ''A'' \<notin> set (map decl_name [Constant_decl ''C'' (Name_ref ''A'')])
   \<and> filter (\<lambda>p. fst p = ''A'') [(''A'', PInt 2), (''B'', PInt 1), (''C'', PInt 2)]
       = [(''A'', PInt 2)]"
proof -
  have h1: "start ([Constant_decl ''A'' (Number ''0o1''), Constant_decl ''B'' (Name_ref ''A'')]
          @ Constant_decl ''A'' (Number ''0o2'') # [Constant_decl ''C'' (Name_ref ''A'')])
     = Inr [(''A'', PInt 2), (''B'', PInt 1), (''C'', PInt 2)]"
    by (simp add: run_simps)
  have h2: "''A'' \<notin> set (map decl_name [Constant_decl ''C'' (Name_ref ''A'')])"
    by simp
  have s: "start [Constant_decl ''A'' (Number ''0o1''), Constant_decl ''B'' (Name_ref ''A'')]
     = Inr [(''A'', PInt 1), (''B'', PInt 1)]"
    by (simp add: run_simps)
  from redeclared_name_latest_value [OF h1 h2] obtain c1 x
    where "start [Constant_decl ''A'' (Number ''0o1''), Constant_decl ''B'' (Name_ref ''A'')] = Inr c1"
      and "value_rule c1 (Number ''0o2'') = Inr x"
      and f: "filter (\<lambda>p. fst p = ''A'') [(''A'', PInt 2), (''B'', PInt 1), (''C'', PInt 2)] = [(''A'', x)]"
    by blast
  then have "x = PInt 2" by (simp add: number_small)
  with h1 h2 f show ?thesis by blast
qed

text \<open>
  Claim C5, as amended. In the compiled table every name stands at the place of its
  first declaration: the names of the table, in order, are the declared names of the
  document with every repetition after the first one left out. A later declaration of
  the name replaces the value and leaves the order alone.
\<close>

theorem redeclared_name_keeps_first_position:
  "start doc = Inr cs \<Longrightarrow> map fst cs = first_write_order (map decl_name doc)"
  using statements_keys [of "[]" doc cs] by (simp add: start_def)

theorem redeclared_name_keeps_first_position_witness:
  "start [Constant_decl ''A'' (Number ''0o1''), Constant_decl ''B'' (Number ''0o2''),
          Constant_decl ''A'' (Number ''0o3'')]
     = Inr [(''A'', PInt 3), (''B'', PInt 2)]
   \<and> map fst [(''A'', PInt 3), (''B'', PInt 2)] = [''A'', ''B'']
   \<and> first_write_order (map decl_name
        [Constant_decl ''A'' (Number ''0o1''), Constant_decl ''B'' (Number ''0o2''),
         Constant_decl ''A'' (Number ''0o3'')]) = [''A'', ''B'']"
proof -
  have h: "start [Constant_decl ''A'' (Number ''0o1''), Constant_decl ''B'' (Number ''0o2''),
          Constant_decl ''A'' (Number ''0o3'')] = Inr [(''A'', PInt 3), (''B'', PInt 2)]"
    by (simp add: run_simps)
  from redeclared_name_keeps_first_position [OF h] h show ?thesis by simp
qed

text \<open>
  Claim C5 as it is written places a name that is declared again at its last
  declaration. For \<^verbatim>\<open>set A = 0o1  set B = 0o2  set A = 0o3\<close> that order is \<open>B, A\<close>,
  while the table comes out as \<open>A, B\<close>.
\<close>

theorem last_write_position_counterexample:
  "start [Constant_decl ''A'' (Number ''0o1''), Constant_decl ''B'' (Number ''0o2''),
          Constant_decl ''A'' (Number ''0o3'')]
     = Inr [(''A'', PInt 3), (''B'', PInt 2)]
   \<and> map fst [(''A'', PInt 3), (''B'', PInt 2)]
       \<noteq> last_write_order (map decl_name
            [Constant_decl ''A'' (Number ''0o1''), Constant_decl ''B'' (Number ''0o2''),
             Constant_decl ''A'' (Number ''0o3'')])"
  by (simp add: run_simps)

text \<open>
  Claim C6 says that a resolved string such as \<^verbatim>\<open>"+"\<close> or \<^verbatim>\<open>"mod"\<close> is pushed as
  data. The source tests \<^verbatim>\<open>token in ["+", "-", "*", "/", "mod"]\<close> on the resolved value,
  and the operator callbacks return the same plain strings, so such a string is run as
  an operator: \<^verbatim>\<open>^{ 0o1 0o2 @"+" }\<close> evaluates to \<open>3\<close>, a reference to a constant
  holding \<^verbatim>\<open>"mod"\<close> computes a remainder, and \<^verbatim>\<open>^{ @"+" }\<close> fails for want of
  operands.
\<close>

theorem string_value_taken_as_operator:
  "start [Constant_decl ''A'' (Expression
            [Value (Number ''0o1''), Value (Number ''0o2''), Value (String (string_token ''+''))])]
     = Inr [(''A'', PInt 3)]
   \<and> start [Constant_decl ''P'' (String (string_token ''mod'')),
            Constant_decl ''A'' (Expression
              [Value (Number ''0o7''), Value (Number ''0o2''), Value (Name_ref ''P'')])]
     = Inr [(''P'', PStr ''mod''), (''A'', PInt 1)]
   \<and> start [Constant_decl ''A'' (Expression [Value (String (string_token ''+''))])]
     = Inl (Not_enough_operands (PStr ''+''))"
proof -
  have s1: "expression_step [PInt 1, PInt 2] (PStr ''+'') = Inr [PInt 3]"
    using step_plus [of "[]" 1 2] by simp
  have s2: "expression_step [PInt 7, PInt 2] (PStr ''mod'') = Inr [PInt 1]"
    using step_mod [of "[]" 7 2] by (simp add: py_mod_def push_int_def)
  have s3: "expression_step [] (PStr ''+'') = Inl (Not_enough_operands (PStr ''+''))"
    by (simp add: step_not_enough operator_names_def)
  have e1: "expression [PInt 1, PInt 2, PStr ''+''] = Inr (PInt 3)"
    by (simp add: expression_def step_push PInt_not_operator s1)
  have e2: "expression [PInt 7, PInt 2, PStr ''mod''] = Inr (PInt 1)"
    by (simp add: expression_def step_push PInt_not_operator s2)
  have e3: "expression [PStr ''+''] = Inl (Not_enough_operands (PStr ''+''))"
    by (simp add: expression_def s3)
  show ?thesis
    by (simp add: run_simps string_rule_token e1 e2 e3)
qed

text \<open>
  Claim C7. When the tokens before an operator leave fewer than two values on the
  stack, the expression fails with the not-enough-operands error. When they leave two
  or more and one of the two topmost values is not an integer, it fails with the type
  error. When all tokens have been processed and the stack does not hold exactly one
  value, it fails with the malformed-stack error, as the empty expression does. When
  all tokens have been processed and one value remains, that value is returned.
\<close>

theorem expression_failures:
  "(expression_loop [] pre1 = Inr stack1 \<and> token1 \<in> set operator_names \<and> length stack1 < 2
      \<longrightarrow> expression (pre1 @ token1 # post1) = Inl (Not_enough_operands token1))
   \<and> (expression_loop [] pre2 = Inr stack2 \<and> token2 \<in> set operator_names \<and> 2 \<le> length stack2
        \<and> (\<not> isinstance_int (last (butlast stack2)) \<or> \<not> isinstance_int (last stack2))
      \<longrightarrow> expression (pre2 @ token2 # post2)
            = Inl (Math_operations_only_integers (last (butlast stack2)) (last stack2)))
   \<and> (expression_loop [] tokens3 = Inr stack3 \<and> length stack3 \<noteq> 1
      \<longrightarrow> expression tokens3 = Inl (Expression_error stack3))
   \<and> (expression_loop [] tokens4 = Inr [v]
      \<longrightarrow> expression tokens4 = Inr v)
   \<and> expression [] = Inl (Expression_error [])"
proof -
  have a: "expression (pre1 @ token1 # post1) = Inl (Not_enough_operands token1)"
    if "expression_loop [] pre1 = Inr stack1" "token1 \<in> set operator_names" "length stack1 < 2"
    using that by (intro expression_fails [where stack = stack1] step_not_enough)
  have b: "expression (pre2 @ token2 # post2)
            = Inl (Math_operations_only_integers (last (butlast stack2)) (last stack2))"
    if "expression_loop [] pre2 = Inr stack2" "token2 \<in> set operator_names" "2 \<le> length stack2"
       "\<not> isinstance_int (last (butlast stack2)) \<or> \<not> isinstance_int (last stack2)"
    using that by (intro expression_fails [where stack = stack2] step_not_integers)
  have c: "expression tokens3 = Inl (Expression_error stack3)"
    if "expression_loop [] tokens3 = Inr stack3" "length stack3 \<noteq> 1"
    using that by (simp add: expression_def)
  have d: "expression tokens4 = Inr v" if "expression_loop [] tokens4 = Inr [v]"
    using that by (simp add: expression_def)
  have e: "expression [] = Inl (Expression_error [])"
    by (simp add: expression_def)
  from a b c d e show ?thesis by blast
qed

theorem expression_failures_witness:
  "expression [PInt 1, PStr ''+''] = Inl (Not_enough_operands (PStr ''+''))
   \<and> expression [PStr ''x'', PInt 1, PStr ''*'', PInt 2]
        = Inl (Math_operations_only_integers (PStr ''x'') (PInt 1))
   \<and> expression [PInt 1, PInt 2] = Inl (Expression_error [PInt 1, PInt 2])
   \<and> expression [PList []] = Inr (PList [])"
proof -
  have l1: "expression_loop [] [PInt 1] = Inr [PInt 1]"
    by (simp add: step_push PInt_not_operator)
  have l2: "expression_loop [] [PStr ''x'', PInt 1] = Inr [PStr ''x'', PInt 1]"
    by (simp add: step_push operator_names_def)
  have l3: "expression_loop [] [PInt 1, PInt 2] = Inr [PInt 1, PInt 2]"
    by (simp add: step_push PInt_not_operator)
  have l4: "expression_loop [] [PList []] = Inr [PList []]"
    by (simp add: step_push operator_names_def)
  have o1: "PStr ''+'' \<in> set operator_names" and o2: "PStr ''*'' \<in> set operator_names"
    by (simp_all add: operator_names_def)
  show ?thesis
    using expression_failures [of "[PInt 1]" "[PInt 1]" "PStr ''+''" "[]"
        "[PStr ''x'', PInt 1]" "[PStr ''x'', PInt 1]" "PStr ''*''" "[PInt 2]"
        "[PInt 1, PInt 2]" "[PInt 1, PInt 2]" "[PList []]" "PList []"]
    by (simp add: l1 l2 l3 l4 o1 o2 del: expression_loop.simps)
qed

text \<open>
  Claim C8. When \<^verbatim>\<open>/\<close> or \<^verbatim>\<open>mod\<close> meets two integers on top of the stack of which the
  upper one is zero, the expression fails with \<^verbatim>\<open>ZeroDivisionError\<close>. The failure
  passes through an enclosing list and an enclosing expression, and a document with
  such a statement compiles to that error and to no table, whatever follows.
\<close>

theorem division_by_zero_aborts:
  assumes "sequence (map (expr_token cs) ts) = Inr (pre @ token # post)"
    and "expression_loop [] pre = Inr (stack @ [PInt a, PInt 0])"
    and "token = PStr ''/'' \<or> token = PStr ''mod''"
  shows "value_rule cs (Expression ts) = Inl ZeroDivisionError
       \<and> (sequence (map (value_rule cs) vs1) = Inr xs
            \<longrightarrow> value_rule cs (Array (vs1 @ Expression ts # vs2)) = Inl ZeroDivisionError)
       \<and> (sequence (map (expr_token cs) ts1) = Inr ys
            \<longrightarrow> value_rule cs (Expression (ts1 @ Value (Expression ts) # ts2)) = Inl ZeroDivisionError)
       \<and> (start d1 = Inr cs
            \<longrightarrow> start (d1 @ Constant_decl name (Expression ts) # d2) = Inl ZeroDivisionError)"
proof -
  have step: "expression_step (stack @ [PInt a, PInt 0]) token = Inl ZeroDivisionError"
    using assms(3) by (auto simp: step_div step_mod py_floordiv_def py_mod_def push_int_def)
  have "expression (pre @ token # post) = Inl ZeroDivisionError"
    using assms(2) step by (rule expression_fails)
  with assms(1) have e: "value_rule cs (Expression ts) = Inl ZeroDivisionError"
    by (simp add: expr_body_def)
  have arr: "value_rule cs (Array (vs1 @ Expression ts # vs2)) = Inl ZeroDivisionError"
    if "sequence (map (value_rule cs) vs1) = Inr xs"
    using sequence_error [OF that e, of vs2] by simp
  have ex: "value_rule cs (Expression (ts1 @ Value (Expression ts) # ts2)) = Inl ZeroDivisionError"
    if "sequence (map (expr_token cs) ts1) = Inr ys"
  proof -
    have "expr_token cs (Value (Expression ts)) = Inl ZeroDivisionError"
      using e by (simp del: value_rule.simps)
    from sequence_error [OF that this, of ts2] show ?thesis by simp
  qed
  have st: "start (d1 @ Constant_decl name (Expression ts) # d2) = Inl ZeroDivisionError"
    if "start d1 = Inr cs"
    using that statements_error [of "[]" d1 cs "Expression ts" ZeroDivisionError name d2] e
    by (simp add: start_def)
  from e arr ex st show ?thesis by blast
qed

theorem division_by_zero_aborts_witness:
  "value_rule [(''Z'', PInt 0)]
     (Expression [Value (Number ''0o1''), Value (Name_ref ''Z''), Operator Op_div])
     = Inl ZeroDivisionError
   \<and> value_rule [(''Z'', PInt 0)]
       (Array [Number ''0o7'', Expression [Value (Number ''0o1''), Value (Name_ref ''Z''),
                 Operator Op_div], Name_ref ''Q''])
     = Inl ZeroDivisionError
   \<and> value_rule [(''Z'', PInt 0)]
       (Expression [Value (Number ''0o7''), Value (Expression [Value (Number ''0o1''),
                 Value (Name_ref ''Z''), Operator Op_div]), Operator Op_plus])
     = Inl ZeroDivisionError
   \<and> start [Constant_decl ''Z'' (Number ''0o0''),
            Constant_decl ''A'' (Expression [Value (Number ''0o1''), Value (Name_ref ''Z''),
                 Operator Op_div]),
            Constant_decl ''B'' (Number ''0o1'')]
     = Inl ZeroDivisionError"
proof -
  let ?cs = "[(''Z'', PInt 0)]"
  let ?ts = "[Value (Number ''0o1''), Value (Name_ref ''Z''), Operator Op_div]"
  have a1: "sequence (map (expr_token ?cs) ?ts) = Inr ([PInt 1, PInt 0] @ PStr ''/'' # [])"
    by (simp add: run_simps)
  have a2: "expression_loop [] [PInt 1, PInt 0] = Inr ([] @ [PInt 1, PInt 0])"
    using push_two [of "[]" 1 0] by simp
  have a3: "PStr ''/'' = PStr ''/'' \<or> PStr ''/'' = PStr ''mod''"
    by simp
  have b1: "sequence [value_rule ?cs (Number ''0o7'')] = Inr [PInt 7]"
    by (simp add: run_simps)
  have b2: "sequence [expr_token ?cs (Value (Number ''0o7''))] = Inr [PInt 7]"
    by (simp add: run_simps)
  have b3: "start [Constant_decl ''Z'' (Number ''0o0'')] = Inr ?cs"
    by (simp add: run_simps)
  show ?thesis
    using division_by_zero_aborts [OF a1 a2 a3,
        of "[Number ''0o7'']" "[PInt 7]" "[Name_ref ''Q'']"
           "[Value (Number ''0o7'')]" "[PInt 7]" "[Operator Op_plus]"
           "[Constant_decl ''Z'' (Number ''0o0'')]" "''A''" "[Constant_decl ''B'' (Number ''0o1'')]"]
    by (simp add: b1 b2 b3 del: value_rule.simps expr_token.simps statements.simps sequence.simps)
qed

text \<open>
  Claim C9. A number token, \<^verbatim>\<open>0o\<close> or \<^verbatim>\<open>0O\<close> followed by one or more digits from 0
  to 7, resolves to the integer that is the base-8 reading of its digits.
\<close>

theorem octal_literal_value:
  assumes "number_token tok"
  shows "number tok = Inr (PInt (base8 (drop 2 tok)))"
proof -
  have "py_int8 (map (\<lambda>c. if c = CHR ''O'' then CHR ''o'' else c) tok) = Some (base8 (drop 2 tok))"
    using assms by (rule py_int8_of_token)
  then show ?thesis
    by (simp add: number_def)
qed

theorem octal_literal_value_witness:
  "number_token ''0o17'' \<and> number ''0o17'' = Inr (PInt 15)
   \<and> number_token ''0O0'' \<and> number ''0O0'' = Inr (PInt 0)"
  using octal_literal_value [of "''0o17''"] octal_literal_value [of "''0O0''"]
  by (simp add: oct_digit_def digit_val_def)

text \<open>
  Claim C10. For a token that matches the lexer's rule for numbers, \<^verbatim>\<open>int(val, 8)\<close>
  does not raise, and \<^verbatim>\<open>number\<close> returns no error: the branch that raises the
  invalid-octal error is not reached.
\<close>

theorem octal_validation_unreachable:
  assumes "number_token tok"
  shows "py_int8 (map (\<lambda>c. if c = CHR ''O'' then CHR ''o'' else c) tok) \<noteq> None
       \<and> number tok \<noteq> Inl e"
proof -
  have parsed: "py_int8 (map (\<lambda>c. if c = CHR ''O'' then CHR ''o'' else c) tok)
                  = Some (base8 (drop 2 tok))"
    using assms by (rule py_int8_of_token)
  then have "number tok = Inr (PInt (base8 (drop 2 tok)))"
    by (simp add: number_def)
  with parsed show ?thesis
    by simp
qed

theorem octal_validation_unreachable_witness:
  "number_token ''0O777''
   \<and> py_int8 ''0o777'' \<noteq> None
   \<and> number ''0O777'' \<noteq> Inl (Invalid_octal_number ''0O777'')"
  using octal_validation_unreachable [of "''0O777''" "Invalid_octal_number ''0O777''"]
  by (simp add: oct_digit_def)

end
